theory Spec2Isabelle
  imports Main "HOL-Library.Word"
begin

unbundle bit_operations_syntax

section \<open>The capture callback of \<^verbatim>\<open>src/native/unix/hook_thread.c\<close>\<close>

text \<open>
  The C types of the source, on a 64-bit (LP64) Linux target: \<^verbatim>\<open>BYTE\<close> and
  \<^verbatim>\<open>unsigned char\<close> are 8 bits, \<^verbatim>\<open>unsigned short\<close> is 16 bits, \<^verbatim>\<open>int\<close> and
  \<^verbatim>\<open>jint\<close> are 32 bits, \<^verbatim>\<open>long\<close> and \<^verbatim>\<open>jlong\<close> are 64 bits. Signed values are
  words read with \<open>sint\<close>.
\<close>

type_synonym BYTE = "8 word"
type_synonym ushort = "16 word"
type_synonym jint = "32 word"
type_synonym jchar = "16 word"
type_synonym jlong = "64 word"
type_synonym KeySym = "64 word"

subsection \<open>What the callback reads\<close>

text \<open>
  Two names of the source are taken by Isabelle: the field \<^verbatim>\<open>type\<close> is \<open>type_x\<close> and
  the global \<^verbatim>\<open>context\<close> is \<open>context_x\<close> here.

  The fields of the \<^verbatim>\<open>xEvent\<close> inside \<^verbatim>\<open>XRecordDatum\<close> that the callback decodes:
  \<^verbatim>\<open>data->type\<close>, \<^verbatim>\<open>event.u.u.detail\<close> and, of \<^verbatim>\<open>event.u.keyButtonPointer\<close>,
  \<^verbatim>\<open>state\<close> (a CARD16), \<^verbatim>\<open>rootX\<close> and \<^verbatim>\<open>rootY\<close> (both INT16).
\<close>

record XRecordDatum =
  type_x :: "8 word"
  detail :: BYTE
  state :: "16 word"
  rootX :: "16 word"
  rootY :: "16 word"

text \<open>The core event codes of \<^verbatim>\<open>X.h\<close>.\<close>

definition KeyPress :: "8 word" where "KeyPress = 2"
definition KeyRelease :: "8 word" where "KeyRelease = 3"
definition ButtonPress :: "8 word" where "ButtonPress = 4"
definition ButtonRelease :: "8 word" where "ButtonRelease = 5"
definition MotionNotify :: "8 word" where "MotionNotify = 6"

text \<open>
  Modelled from the spec: \<^verbatim>\<open>XWheelCodes.h\<close>, which defines \<^verbatim>\<open>WheelUp\<close> and
  \<^verbatim>\<open>WheelDown\<close>, is not among the sources. The spec reserves the native buttons 4 and 5
  as the scroll-wheel notches; 4 is the notch away from the user and 5 the notch towards
  the user, as in the X11 core protocol.
\<close>

definition WheelUp :: BYTE where "WheelUp = 4"
definition WheelDown :: BYTE where "WheelDown = 5"

record JKeyDatum =
  keycode :: jint
  location :: jint

text \<open>
  The helpers and constants that the callback uses and whose definitions are in files
  that are not among the sources (\<^verbatim>\<open>NativeHelpers.h\<close>, \<^verbatim>\<open>NativeToJava.h\<close>,
  \<^verbatim>\<open>XInputHelpers.h\<close> and the generated JNI headers). They are parameters of the model.
\<close>

record native_env =
  GetMultiClickTime :: "64 word"
  NativeToJEventMask :: "32 word \<Rightarrow> jint"
  NativeToJButton :: "BYTE \<Rightarrow> jint"
  KeyCodeToKeySym :: "BYTE \<Rightarrow> 32 word \<Rightarrow> KeySym"
  NativeToJKey :: "KeySym \<Rightarrow> JKeyDatum"
  KeySymToUnicode :: "KeySym \<Rightarrow> 32 word"
  CHAR_UNDEFINED :: jchar
  VK_UNDEFINED :: jint
  WHEEL_UNIT_SCROLL :: jint

subsection \<open>What the callback writes\<close>

text \<open>The three mouse globals of the file.\<close>

record mouse_globals =
  click_count :: ushort
  click_time :: "64 word"
  mouse_dragged :: bool

definition initial_globals :: mouse_globals where
  "initial_globals = \<lparr>click_count = 0, click_time = 0, mouse_dragged = False\<rparr>"

text \<open>
  The event identifiers of the Java classes, and the four constructors through which the
  callback builds an event object (\<^verbatim>\<open>idNativeKeyEvent\<close>, \<^verbatim>\<open>idNativeMouseButtonEvent\<close>,
  \<^verbatim>\<open>idNativeMouseMotionEvent\<close>, \<^verbatim>\<open>idNativeMouseWheelEvent\<close>) with the arguments in the
  order of the \<^verbatim>\<open>NewObject\<close> calls. Every object built is handed to
  \<^verbatim>\<open>idDispatchNativeEvent\<close> at once, so the callback's output is the list of events in
  the order of dispatch.
\<close>

datatype event_id =
    NATIVE_KEY_PRESSED | NATIVE_KEY_TYPED | NATIVE_KEY_RELEASED
  | NATIVE_MOUSE_PRESSED | NATIVE_MOUSE_RELEASED | NATIVE_MOUSE_CLICKED
  | NATIVE_MOUSE_MOVED | NATIVE_MOUSE_DRAGGED | NATIVE_MOUSE_WHEEL

datatype native_event =
    NativeKeyEvent event_id jlong jint BYTE jint jchar jint
  | NativeMouseButtonEvent event_id jlong jint jint jint jint jint
  | NativeMouseMotionEvent event_id jlong jint jint jint jint
  | NativeMouseWheelEvent event_id jlong jint jint jint jint jint jint jint

fun event_id_of :: "native_event \<Rightarrow> event_id" where
  "event_id_of (NativeKeyEvent i _ _ _ _ _ _) = i"
| "event_id_of (NativeMouseButtonEvent i _ _ _ _ _ _) = i"
| "event_id_of (NativeMouseMotionEvent i _ _ _ _ _) = i"
| "event_id_of (NativeMouseWheelEvent i _ _ _ _ _ _ _ _) = i"

subsection \<open>The \<^verbatim>\<open>switch (event_type)\<close> of \<^verbatim>\<open>callback_proc\<close>\<close>

text \<open>The test \<^verbatim>\<open>event_code > 0 && (event_code <= 3 || event_code == 8 || event_code == 9)\<close>.\<close>

definition ordinary_button :: "BYTE \<Rightarrow> bool" where
  "ordinary_button event_code \<longleftrightarrow>
     0 < event_code \<and> (event_code \<le> 3 \<or> event_code = 8 \<or> event_code = 9)"

text \<open>The test \<^verbatim>\<open>(long) (event_time - click_time) <= GetMultiClickTime()\<close>, on signed longs.\<close>

definition within_multi_click :: "native_env \<Rightarrow> jlong \<Rightarrow> mouse_globals \<Rightarrow> bool" where
  "within_multi_click h event_time g \<longleftrightarrow>
     sint (event_time - click_time g) \<le> sint (GetMultiClickTime h)"

text \<open>The test \<^verbatim>\<open>jmodifiers >> 4 > 0\<close> on the signed \<^verbatim>\<open>jint\<close>.\<close>

definition upper_half_set :: "jint \<Rightarrow> bool" where
  "upper_half_set jmodifiers \<longleftrightarrow> 0 < sint (signed_drop_bit 4 jmodifiers)"

definition case_KeyPress ::
  "native_env \<Rightarrow> XRecordDatum \<Rightarrow> jlong \<Rightarrow> mouse_globals \<Rightarrow> native_event list \<times> mouse_globals" where
  "case_KeyPress h d event_time g =
     (let event_code = detail d;
          event_mask = ucast (state d);
          keysym = KeyCodeToKeySym h event_code event_mask;
          jkey = NativeToJKey h keysym;
          jmodifiers = NativeToJEventMask h event_mask;
          pressed = NativeKeyEvent NATIVE_KEY_PRESSED event_time jmodifiers event_code
                      (keycode jkey) (CHAR_UNDEFINED h) (location jkey);
          keytxt = KeySymToUnicode h keysym
      in if keytxt \<noteq> 0
         then ([pressed,
                NativeKeyEvent NATIVE_KEY_TYPED event_time jmodifiers event_code
                  (VK_UNDEFINED h) (ucast keytxt) (location jkey)], g)
         else ([pressed], g))"

definition case_KeyRelease ::
  "native_env \<Rightarrow> XRecordDatum \<Rightarrow> jlong \<Rightarrow> mouse_globals \<Rightarrow> native_event list \<times> mouse_globals" where
  "case_KeyRelease h d event_time g =
     (let event_code = detail d;
          event_mask = ucast (state d);
          keysym = KeyCodeToKeySym h event_code event_mask;
          jkey = NativeToJKey h keysym;
          jmodifiers = NativeToJEventMask h event_mask
      in ([NativeKeyEvent NATIVE_KEY_RELEASED event_time jmodifiers event_code
             (keycode jkey) (CHAR_UNDEFINED h) (location jkey)], g))"

definition case_ButtonPress ::
  "native_env \<Rightarrow> XRecordDatum \<Rightarrow> jlong \<Rightarrow> mouse_globals \<Rightarrow> native_event list \<times> mouse_globals" where
  "case_ButtonPress h d event_time g =
     (let event_code = detail d;
          event_mask = ucast (state d);
          event_root_x = scast (rootX d);
          event_root_y = scast (rootY d);
          g1 = (if within_multi_click h event_time g
                then g\<lparr>click_count := click_count g + 1\<rparr>
                else g\<lparr>click_count := 1\<rparr>);
          g2 = g1\<lparr>click_time := event_time\<rparr>;
          jmodifiers = NativeToJEventMask h event_mask
      in if ordinary_button event_code
         then ([NativeMouseButtonEvent NATIVE_MOUSE_PRESSED event_time jmodifiers
                  event_root_x event_root_y (ucast (click_count g2))
                  (NativeToJButton h event_code)], g2)
         else if event_code = WheelUp \<or> event_code = WheelDown
         then (let jscrollType = WHEEL_UNIT_SCROLL h;
                   jscrollAmount = 3;
                   jwheelRotation = (if event_code = WheelUp then - 1 else 1)
               in ([NativeMouseWheelEvent NATIVE_MOUSE_WHEEL event_time jmodifiers
                      event_root_x event_root_y (ucast (click_count g2))
                      jscrollType jscrollAmount jwheelRotation], g2))
         else ([], g2))"

definition case_ButtonRelease ::
  "native_env \<Rightarrow> XRecordDatum \<Rightarrow> jlong \<Rightarrow> mouse_globals \<Rightarrow> native_event list \<times> mouse_globals" where
  "case_ButtonRelease h d event_time g =
     (let event_code = detail d;
          event_mask = ucast (state d);
          event_root_x = scast (rootX d);
          event_root_y = scast (rootY d)
      in if ordinary_button event_code
         then (let jbutton = NativeToJButton h event_code;
                   jmodifiers = NativeToJEventMask h event_mask;
                   released = NativeMouseButtonEvent NATIVE_MOUSE_RELEASED event_time
                                jmodifiers event_root_x event_root_y
                                (ucast (click_count g)) jbutton
               in if \<not> mouse_dragged g
                  then ([released,
                         NativeMouseButtonEvent NATIVE_MOUSE_CLICKED event_time
                           jmodifiers event_root_x event_root_y
                           (ucast (click_count g)) jbutton], g)
                  else ([released], g))
         else ([], g))"

definition case_MotionNotify ::
  "native_env \<Rightarrow> XRecordDatum \<Rightarrow> jlong \<Rightarrow> mouse_globals \<Rightarrow> native_event list \<times> mouse_globals" where
  "case_MotionNotify h d event_time g =
     (let event_mask = ucast (state d);
          event_root_x = scast (rootX d);
          event_root_y = scast (rootY d);
          g1 = (if click_count g \<noteq> 0 \<and> \<not> within_multi_click h event_time g
                then g\<lparr>click_count := 0\<rparr> else g);
          jmodifiers = NativeToJEventMask h event_mask;
          g2 = g1\<lparr>mouse_dragged := upper_half_set jmodifiers\<rparr>
      in if upper_half_set jmodifiers
         then ([NativeMouseMotionEvent NATIVE_MOUSE_DRAGGED event_time jmodifiers
                  event_root_x event_root_y (ucast (click_count g2))], g2)
         else ([NativeMouseMotionEvent NATIVE_MOUSE_MOVED event_time jmodifiers
                  event_root_x event_root_y (ucast (click_count g2))], g2))"

text \<open>
  The switch itself. An event type without a case (the \<^verbatim>\<open>default\<close> exists only under
  \<^verbatim>\<open>DEBUG\<close> and only prints) dispatches nothing and changes nothing.
\<close>

definition event_switch ::
  "native_env \<Rightarrow> XRecordDatum \<Rightarrow> jlong \<Rightarrow> mouse_globals \<Rightarrow> native_event list \<times> mouse_globals" where
  "event_switch h d event_time g =
     (let event_type = type_x d
      in if event_type = KeyPress then case_KeyPress h d event_time g
         else if event_type = KeyRelease then case_KeyRelease h d event_time g
         else if event_type = ButtonPress then case_ButtonPress h d event_time g
         else if event_type = ButtonRelease then case_ButtonRelease h d event_time g
         else if event_type = MotionNotify then case_MotionNotify h d event_time g
         else ([], g))"


section \<open>The hook thread's life cycle\<close>

subsection \<open>State\<close>

text \<open>
  The file's other globals (\<^verbatim>\<open>disp_ctrl\<close>, \<^verbatim>\<open>context\<close>, the two mutexes) together with
  the mouse globals, and what the process holds outside its variables: the server
  connections that are open, the record contexts that exist, the number of capture
  threads alive, and the platform calls made so far, each with the thread that made it.
  A mutex is \<open>True\<close> while locked; \<^verbatim>\<open>disp_ctrl\<close> is \<open>None\<close> while \<^verbatim>\<open>NULL\<close>; a context
  is an XID and 0 is no context.
\<close>

datatype thread = Caller | Capture

datatype xcall =
    Call_XOpenDisplay | Call_XRecordQueryVersion | Call_XRecordAllocRange
  | Call_XRecordCreateContext | Call_XFree | Call_XRecordEnableContext
  | Call_LoadInputHelper | Call_pthread_create | Call_pthread_join

record hook_state =
  disp_ctrl :: "nat option"
  context_x :: nat
  hook_running_mutex :: bool
  hook_control_mutex :: bool
  mouse :: mouse_globals
  connections :: "nat list"
  contexts :: "nat list"
  capture_threads :: nat
  xcalls :: "(thread \<times> xcall) list"

definition call :: "thread \<Rightarrow> xcall \<Rightarrow> hook_state \<Rightarrow> hook_state" where
  "call t c s = s\<lparr>xcalls := xcalls s @ [(t, c)]\<rparr>"

text \<open>
  \<^verbatim>\<open>RETURN_SUCCESS\<close> and \<^verbatim>\<open>RETURN_FAILURE\<close> of \<^verbatim>\<open>NativeErrors.h\<close> (not among the
  sources): the only two values \<^verbatim>\<open>start_native_thread\<close> can return.
\<close>

datatype status = RETURN_SUCCESS | RETURN_FAILURE

text \<open>The categories of \<^verbatim>\<open>record.h\<close>.\<close>

datatype XRecordCategory =
    XRecordFromServer | XRecordFromClient | XRecordClientStarted
  | XRecordClientDied | XRecordStartOfData | XRecordEndOfData

record XRecordInterceptData =
  category :: XRecordCategory
  data :: XRecordDatum

subsection \<open>\<^verbatim>\<open>is_hook_thread_running\<close>\<close>

text \<open>
  A successful \<^verbatim>\<open>pthread_mutex_trylock\<close> is undone at once, so the probe leaves the state
  as it is and answers whether the running mutex is locked.
\<close>

definition is_hook_thread_running :: "hook_state \<Rightarrow> bool" where
  "is_hook_thread_running s = (if \<not> hook_running_mutex s then False else True)"

subsection \<open>\<^verbatim>\<open>callback_proc\<close>\<close>

text \<open>
  Besides the intercepted data the callback reads whether \<^verbatim>\<open>GetEnv\<close> answered
  \<^verbatim>\<open>JNI_OK\<close> and the clock (\<^verbatim>\<open>gettimeofday\<close>, in milliseconds); both are arguments here.
  The result is \<open>None\<close> when the callback blocks: \<^verbatim>\<open>pthread_mutex_lock\<close> on a locked
  running mutex. An event is processed only while \<^verbatim>\<open>disp_ctrl\<close> is set, the JNI
  environment is there and the trylock of the running mutex fails; where the trylock
  succeeds the mutex is unlocked again and nothing else happens.
\<close>

definition callback_proc ::
  "native_env \<Rightarrow> bool \<Rightarrow> jlong \<Rightarrow> XRecordInterceptData \<Rightarrow> hook_state
     \<Rightarrow> (native_event list \<times> hook_state) option" where
  "callback_proc h jni_ok event_time hook s =
     (if category hook = XRecordStartOfData
      then (if hook_running_mutex s then None
            else Some ([], s\<lparr>hook_running_mutex := True, hook_control_mutex := False\<rparr>))
      else if category hook = XRecordEndOfData
      then Some ([], s\<lparr>hook_running_mutex := False\<rparr>)
      else if category hook = XRecordFromServer \<or> category hook = XRecordFromClient
      then (if disp_ctrl s \<noteq> None \<and> jni_ok
            then (if hook_running_mutex s
                  then (case event_switch h (data hook) event_time (mouse s) of
                          (evs, g) \<Rightarrow> Some (evs, s\<lparr>mouse := g\<rparr>))
                  else Some ([], s))
            else Some ([], s))
      else Some ([], s))"

subsection \<open>\<^verbatim>\<open>XRecordEnableContext\<close>\<close>

text \<open>
  The platform's enable call is not part of the repository; the model takes what it does
  from outside. It either fails (returns 0 without calling back), or hands the listed
  data to \<^verbatim>\<open>callback_proc\<close> one after the other on the calling thread and then returns
  nonzero (the context was disabled meanwhile), or hands the listed data over and waits
  for more for ever. Each datum comes with the JNI answer and the clock reading of its
  callback. The events dispatched meanwhile are not kept here.
\<close>

type_synonym delivery = "bool \<times> jlong \<times> XRecordInterceptData"

datatype enable_result =
    EnableFails | EnableReturns "delivery list" | EnableBlocks "delivery list"

fun deliver :: "native_env \<Rightarrow> delivery list \<Rightarrow> hook_state \<Rightarrow> bool \<times> hook_state" where
  "deliver h [] s = (True, s)"
| "deliver h ((jni_ok, event_time, hook) # ds) s =
     (case callback_proc h jni_ok event_time hook s of
        None \<Rightarrow> (False, s)
      | Some (evs, s') \<Rightarrow> deliver h ds s')"

text \<open>The answer is \<open>Some True\<close> for nonzero, \<open>Some False\<close> for 0, \<open>None\<close> for no return.\<close>

definition XRecordEnableContext ::
  "native_env \<Rightarrow> thread \<Rightarrow> enable_result \<Rightarrow> hook_state \<Rightarrow> bool option \<times> hook_state" where
  "XRecordEnableContext h t r s =
     (let s1 = call t Call_XRecordEnableContext s
      in case r of
           EnableFails \<Rightarrow> (Some False, s1)
         | EnableReturns ds \<Rightarrow>
             (case deliver h ds s1 of
                (True, s2) \<Rightarrow> (Some True, s2)
              | (False, s2) \<Rightarrow> (None, s2))
         | EnableBlocks ds \<Rightarrow> (None, snd (deliver h ds s1)))"

subsection \<open>\<^verbatim>\<open>thread_proc\<close> (without \<^verbatim>\<open>XRECORD_ASYNC\<close>)\<close>

text \<open>
  The result is the exit status handed to \<^verbatim>\<open>pthread_exit\<close>, or \<open>None\<close> while the thread
  is still inside the enable call. A thread that exits is no longer alive.
\<close>

definition thread_proc ::
  "native_env \<Rightarrow> enable_result \<Rightarrow> hook_state \<Rightarrow> status option \<times> hook_state" where
  "thread_proc h r s =
     (case XRecordEnableContext h Capture r s of
        (None, s1) \<Rightarrow> (None, s1)
      | (Some enabled, s1) \<Rightarrow>
          (Some (if enabled then RETURN_SUCCESS else RETURN_FAILURE),
           s1\<lparr>hook_control_mutex := False, capture_threads := capture_threads s1 - 1\<rparr>))"

subsection \<open>\<^verbatim>\<open>start_native_thread\<close> (without \<^verbatim>\<open>XRECORD_ASYNC\<close>)\<close>

text \<open>
  What the platform answers to the calls of \<^verbatim>\<open>start_native_thread\<close>: the two
  \<^verbatim>\<open>XOpenDisplay\<close> results (\<open>None\<close> is \<^verbatim>\<open>NULL\<close>), whether \<^verbatim>\<open>XRecordQueryVersion\<close> is
  nonzero, whether \<^verbatim>\<open>XRecordAllocRange\<close> is not \<^verbatim>\<open>NULL\<close>, the XID of
  \<^verbatim>\<open>XRecordCreateContext\<close> (0 on failure), what the enable call made by
  \<^verbatim>\<open>start_native_thread\<close> itself does, whether \<^verbatim>\<open>pthread_create\<close> returns 0, and what
  the enable call of the spawned thread does.
\<close>

record platform =
  XOpenDisplay_ctrl :: "nat option"
  XOpenDisplay_data :: "nat option"
  XRecordQueryVersion :: bool
  XRecordAllocRange :: bool
  XRecordCreateContext :: nat
  enable_in_start :: enable_result
  pthread_create :: bool
  enable_in_thread :: enable_result

definition XOpenDisplay :: "nat option \<Rightarrow> hook_state \<Rightarrow> hook_state" where
  "XOpenDisplay r s =
     (let s1 = call Caller Call_XOpenDisplay s
      in case r of None \<Rightarrow> s1 | Some d \<Rightarrow> s1\<lparr>connections := connections s1 @ [d]\<rparr>)"

text \<open>
  Lines 443 to 548: from \<^verbatim>\<open>XOpenDisplay\<close> to the end of the nested conditionals. The
  source's \<^verbatim>\<open>*status = RETURN_SUCCESS\<close> after a nonzero enable is \<^verbatim>\<open>thread_proc\<close>'s
  spelling (there \<^verbatim>\<open>status\<close> is a pointer, here an \<^verbatim>\<open>int\<close>); the model assigns
  \<^verbatim>\<open>status\<close>. The result is the value of \<^verbatim>\<open>status\<close>, or \<open>None\<close> when the enable call
  does not return.
\<close>

definition open_and_enable ::
  "native_env \<Rightarrow> platform \<Rightarrow> hook_state \<Rightarrow> status option \<times> hook_state" where
  "open_and_enable h p s =
     (let s1 = XOpenDisplay (XOpenDisplay_ctrl p) s;
          s2 = s1\<lparr>disp_ctrl := XOpenDisplay_ctrl p\<rparr>;
          s3 = XOpenDisplay (XOpenDisplay_data p) s2;
          disp_data = XOpenDisplay_data p
      in if disp_ctrl s3 \<noteq> None \<and> disp_data \<noteq> None
         then (let s4 = call Caller Call_XRecordQueryVersion s3
               in if XRecordQueryVersion p
                  then (let s5 = call Caller Call_XRecordAllocRange s4
                        in if XRecordAllocRange p
                           then (let s6 = call Caller Call_XRecordCreateContext s5;
                                     s7 = s6\<lparr>context_x := XRecordCreateContext p,
                                             contexts := (if XRecordCreateContext p \<noteq> 0
                                                          then contexts s6 @ [XRecordCreateContext p]
                                                          else contexts s6)\<rparr>;
                                     s8 = call Caller Call_XFree s7
                                 in case XRecordEnableContext h Caller (enable_in_start p) s8 of
                                      (None, s9) \<Rightarrow> (None, s9)
                                    | (Some True, s9) \<Rightarrow> (Some RETURN_SUCCESS, s9)
                                    | (Some False, s9) \<Rightarrow> (Some RETURN_FAILURE, s9))
                           else (Some RETURN_FAILURE, s5))
                  else (Some RETURN_FAILURE, s4))
         else (Some RETURN_FAILURE, s3))"

text \<open>
  Lines 561 to 606: the spawn and the handshake. The capture thread runs concurrently; the
  model lets it run \<^verbatim>\<open>thread_proc\<close> up to the point where it exits or waits inside the
  enable call, and then lets \<^verbatim>\<open>start_native_thread\<close> go on. While the control mutex is
  locked, \<^verbatim>\<open>start_native_thread\<close> cannot pass line 572 before that point; \<open>None\<close> is the
  caller waiting for ever, at the lock or at the join.
\<close>

definition spawn_and_wait ::
  "native_env \<Rightarrow> platform \<Rightarrow> status \<Rightarrow> hook_state \<Rightarrow> status option \<times> hook_state" where
  "spawn_and_wait h p status s =
     (let s1 = call Caller Call_pthread_create s
      in if context_x s \<noteq> 0 \<and> pthread_create p
         then (case thread_proc h (enable_in_thread p)
                      (s1\<lparr>capture_threads := capture_threads s1 + 1\<rparr>) of
                 (exit_status, s2) \<Rightarrow>
                   if hook_control_mutex s2 then (None, s2)
                   else if is_hook_thread_running s2 then (Some RETURN_SUCCESS, s2)
                   else (case exit_status of
                           None \<Rightarrow> (None, call Caller Call_pthread_join s2)
                         | Some thread_status \<Rightarrow>
                             (Some thread_status, call Caller Call_pthread_join s2)))
         else (Some status, if context_x s \<noteq> 0 then s1 else s))"

text \<open>
  The function. \<open>None\<close> is a call that does not return; the state is then the one in which
  the caller waits.
\<close>

definition start_native_thread ::
  "native_env \<Rightarrow> platform \<Rightarrow> hook_state \<Rightarrow> status option \<times> hook_state" where
  "start_native_thread h p s =
     (if hook_control_mutex s then (None, s)
      else (let s1 = s\<lparr>hook_control_mutex := True\<rparr>
            in if \<not> is_hook_thread_running s1
               then (case open_and_enable h p (s1\<lparr>context_x := 0\<rparr>) of
                       (None, s2) \<Rightarrow> (None, s2)
                     | (Some status, s2) \<Rightarrow>
                         (case spawn_and_wait h p status (call Caller Call_LoadInputHelper s2) of
                            (None, s3) \<Rightarrow> (None, s3)
                          | (Some status', s3) \<Rightarrow>
                              (Some status', s3\<lparr>hook_control_mutex := False\<rparr>)))
               else (Some RETURN_FAILURE, s1\<lparr>hook_control_mutex := False\<rparr>)))"


section \<open>Event streams and sample inputs\<close>

text \<open>
  The platform calls the callback once for each intercepted event, in arrival order;
  \<open>run_events\<close> is the switch over a stream of events with their clock readings.
\<close>

fun run_events ::
  "native_env \<Rightarrow> (XRecordDatum \<times> jlong) list \<Rightarrow> mouse_globals
     \<Rightarrow> native_event list \<times> mouse_globals" where
  "run_events h [] g = ([], g)"
| "run_events h ((d, event_time) # es) g =
     (case event_switch h d event_time g of
        (out, g1) \<Rightarrow> (case run_events h es g1 of (outs, g2) \<Rightarrow> (out @ outs, g2)))"

text \<open>The mask that a motion event's \<^verbatim>\<open>jmodifiers\<close> is computed from.\<close>

definition motion_modifiers :: "native_env \<Rightarrow> XRecordDatum \<Rightarrow> jint" where
  "motion_modifiers h d = NativeToJEventMask h (ucast (state d))"

text \<open>
  The spec's condition for a click, in its words: a drag preceded the release since the
  corresponding press. The history is the stream before the release; the events since the
  last press of the released button are searched for a motion event classified as a drag.
\<close>

definition since_press :: "BYTE \<Rightarrow> (XRecordDatum \<times> jlong) list \<Rightarrow> (XRecordDatum \<times> jlong) list" where
  "since_press button history =
     takeWhile (\<lambda>(d, t). \<not> (type_x d = ButtonPress \<and> detail d = button)) (rev history)"

definition drag_since_press ::
  "native_env \<Rightarrow> BYTE \<Rightarrow> (XRecordDatum \<times> jlong) list \<Rightarrow> bool" where
  "drag_since_press h button history =
     list_ex (\<lambda>(d, t). type_x d = MotionNotify \<and> upper_half_set (motion_modifiers h d))
       (since_press button history)"

text \<open>
  A sample environment for evaluating the model: a multi-click time of 200 ms, the five
  button bits of the X11 state (bits 8 to 12) moved down to bits 4 to 8, and plain
  stand-ins for the key helpers.
\<close>

definition sample_env :: native_env where
  "sample_env =
     \<lparr>GetMultiClickTime = 200,
      NativeToJEventMask = (\<lambda>m. drop_bit 4 (m AND 0x1F00)),
      NativeToJButton = ucast,
      KeyCodeToKeySym = (\<lambda>c m. ucast c),
      NativeToJKey = (\<lambda>k. \<lparr>keycode = ucast k, location = 1\<rparr>),
      KeySymToUnicode = (\<lambda>k. 0),
      CHAR_UNDEFINED = 0xFFFF,
      VK_UNDEFINED = 0,
      WHEEL_UNIT_SCROLL = 0\<rparr>"

definition xevent :: "8 word \<Rightarrow> BYTE \<Rightarrow> 16 word \<Rightarrow> XRecordDatum" where
  "xevent ty code st = \<lparr>type_x = ty, detail = code, state = st, rootX = 0, rootY = 0\<rparr>"

text \<open>
  Sample life-cycle inputs: the idle process, the process with a capture thread running,
  a platform on which every call succeeds and the enable call waits for events as
  documented, and platforms on which one step fails.
\<close>

definition idle_hook :: hook_state where
  "idle_hook =
     \<lparr>disp_ctrl = None, context_x = 0, hook_running_mutex = False,
      hook_control_mutex = False, mouse = initial_globals, connections = [],
      contexts = [], capture_threads = 0, xcalls = []\<rparr>"

definition running_hook :: hook_state where
  "running_hook =
     \<lparr>disp_ctrl = Some 1, context_x = 3, hook_running_mutex = True,
      hook_control_mutex = False, mouse = initial_globals, connections = [1, 2],
      contexts = [3], capture_threads = 1, xcalls = []\<rparr>"

definition start_of_data :: delivery where
  "start_of_data = (True, 0, \<lparr>category = XRecordStartOfData, data = xevent 0 0 0\<rparr>)"

definition good_platform :: platform where
  "good_platform =
     \<lparr>XOpenDisplay_ctrl = Some 1, XOpenDisplay_data = Some 2,
      XRecordQueryVersion = True, XRecordAllocRange = True, XRecordCreateContext = 3,
      enable_in_start = EnableBlocks [start_of_data], pthread_create = True,
      enable_in_thread = EnableBlocks [start_of_data]\<rparr>"

definition no_extension :: platform where
  "no_extension = good_platform\<lparr>XRecordQueryVersion := False\<rparr>"

definition no_display :: platform where
  "no_display = good_platform\<lparr>XOpenDisplay_ctrl := None, XOpenDisplay_data := None\<rparr>"

definition no_thread :: platform where
  "no_thread = good_platform\<lparr>enable_in_start := EnableFails, pthread_create := False\<rparr>"

text \<open>
  The failing setup paths on which \<^verbatim>\<open>start_native_thread\<close> does not get past its own
  enable call with a nonzero answer: a connection is missing, the extension is missing,
  the range is not allocated, or the enable call fails and then the context is missing or
  the thread is not created.
\<close>

definition setup_fails :: "platform \<Rightarrow> bool" where
  "setup_fails p \<longleftrightarrow>
     XOpenDisplay_ctrl p = None \<or> XOpenDisplay_data p = None
     \<or> \<not> XRecordQueryVersion p \<or> \<not> XRecordAllocRange p
     \<or> (enable_in_start p = EnableFails \<and> (XRecordCreateContext p = 0 \<or> \<not> pthread_create p))"

definition idle :: "hook_state \<Rightarrow> bool" where
  "idle s \<longleftrightarrow> \<not> hook_control_mutex s \<and> \<not> hook_running_mutex s \<and> capture_threads s = 0"


text \<open>The click count that a mouse event carries (none in a key event).\<close>

fun clicks_of :: "native_event \<Rightarrow> jint" where
  "clicks_of (NativeKeyEvent _ _ _ _ _ _ _) = 0"
| "clicks_of (NativeMouseButtonEvent _ _ _ _ _ c _) = c"
| "clicks_of (NativeMouseMotionEvent _ _ _ _ _ c) = c"
| "clicks_of (NativeMouseWheelEvent _ _ _ _ _ c _ _ _) = c"

text \<open>Sample mouse inputs: the globals after one click at 1000 ms, and a stream in which
  button 1 is pressed, dragged, released and pressed again without any motion.\<close>

definition one_click :: mouse_globals where
  "one_click = \<lparr>click_count = 1, click_time = 1000, mouse_dragged = False\<rparr>"

definition drag_then_click :: "(XRecordDatum \<times> jlong) list" where
  "drag_then_click =
     [(xevent ButtonPress 1 0, 1000),
      (xevent MotionNotify 0 0x100, 1050),
      (xevent ButtonRelease 1 0x100, 1100),
      (xevent ButtonPress 1 0, 5000)]"

section \<open>Facts about words\<close>

lemma sint_diff_nonneg:
  fixes a b :: "64 word"
  assumes "0 \<le> sint a" "0 \<le> sint b"
  shows "sint (a - b) = sint a - sint b"
proof -
  have "sint a < 2 ^ 63" using sint_lt [of a] by simp
  moreover have "sint b < 2 ^ 63" using sint_lt [of b] by simp
  ultimately have "- (2 ^ 63) \<le> sint a - sint b" "sint a - sint b < 2 ^ 63"
    using assms by simp_all
  then show ?thesis
    by (simp add: sint_word_ariths signed_take_bit_int_eq_self)
qed

lemma sint_bits_nonneg:
  fixes m :: "32 word"
  assumes "0 \<le> sint m"
  shows "bit (sint m) n = bit m n"
proof -
  have "bit m (LENGTH(32) - Suc 0) \<longleftrightarrow> sint m < 0" by (rule bit_last_iff)
  then have "\<not> bit m 31" using assms by simp
  then show ?thesis by (auto simp add: bit_sint_iff dest: bit_imp_le_length)
qed

lemma upper_half_set_bits:
  fixes m :: "32 word"
  assumes "0 \<le> sint m"
  shows "upper_half_set m \<longleftrightarrow> (\<exists>n\<ge>4. bit m n)"
proof -
  have "upper_half_set m \<longleftrightarrow> drop_bit 4 (sint m) \<noteq> 0"
  proof -
    have "0 \<le> sint m div 16" using assms by simp
    then show ?thesis
      by (simp add: upper_half_set_def sint_signed_drop_bit_eq drop_bit_eq_div order_less_le)
  qed
  also have "\<dots> \<longleftrightarrow> (\<exists>n. bit (drop_bit 4 (sint m)) n)"
    by (simp add: bit_eq_iff)
  also have "\<dots> \<longleftrightarrow> (\<exists>n. bit m (4 + n))"
    using assms by (simp add: bit_drop_bit_eq sint_bits_nonneg)
  also have "\<dots> \<longleftrightarrow> (\<exists>n\<ge>4. bit m n)"
    by (metis le_add1 le_Suc_ex)
  finally show ?thesis .
qed

lemma bit_0xF0: "bit (0xF0 :: 32 word) n \<longleftrightarrow> 4 \<le> n \<and> n < 8"
proof -
  have e: "(0xF0 :: 32 word) = push_bit 4 (mask 4)" by (simp add: mask_eq_exp_minus_1)
  show ?thesis by (subst e) (auto simp add: bit_simps)
qed

lemma byte_bits:
  fixes m :: "32 word"
  assumes "m \<le> 0xFF" "bit m n"
  shows "n < 8"
proof -
  have "m < 2 ^ 8" using assms(1) by (simp add: word_less_def word_le_def)
  then have "take_bit 8 m = m" by (simp add: take_bit_eq_mask less_mask_eq)
  then have "bit (take_bit 8 m) n" using assms(2) by simp
  then show ?thesis by (simp add: bit_take_bit_iff)
qed

lemma byte_nonneg:
  fixes m :: "32 word"
  assumes "m \<le> 0xFF"
  shows "0 \<le> sint m"
proof -
  have "\<not> bit m 31" using byte_bits [OF assms, of 31] by auto
  moreover have "bit m (LENGTH(32) - Suc 0) \<longleftrightarrow> sint m < 0" by (rule bit_last_iff)
  ultimately show ?thesis by simp
qed

lemma upper_nibble:
  fixes m :: "32 word"
  assumes "m \<le> 0xFF"
  shows "upper_half_set m \<longleftrightarrow> m AND 0xF0 \<noteq> 0"
proof -
  have "upper_half_set m \<longleftrightarrow> (\<exists>n\<ge>4. bit m n)"
    by (rule upper_half_set_bits [OF byte_nonneg [OF assms]])
  also have "\<dots> \<longleftrightarrow> (\<exists>n. bit m n \<and> 4 \<le> n \<and> n < 8)"
    using byte_bits [OF assms] by blast
  also have "\<dots> \<longleftrightarrow> (\<exists>n. bit (m AND 0xF0) n)"
    by (simp only: bit_and_iff bit_0xF0)
  also have "\<dots> \<longleftrightarrow> m AND 0xF0 \<noteq> 0"
    using bit_eq_iff [of "m AND 0xF0" 0] by auto
  finally show ?thesis .
qed

lemma upper_half_set_sint:
  fixes m :: "32 word"
  shows "upper_half_set m \<longleftrightarrow> 16 \<le> sint m"
  by (simp add: upper_half_set_def sint_signed_drop_bit_eq drop_bit_eq_div pos_imp_zdiv_pos_iff)

section \<open>The cases of the switch\<close>

lemmas event_codes = KeyPress_def KeyRelease_def ButtonPress_def ButtonRelease_def MotionNotify_def

lemma within_multi_click_int:
  "0 \<le> sint t \<Longrightarrow> 0 \<le> sint (click_time g) \<Longrightarrow>
   within_multi_click h t g \<longleftrightarrow> sint t - sint (click_time g) \<le> sint (GetMultiClickTime h)"
  by (simp add: within_multi_click_def sint_diff_nonneg)

lemma switch_ButtonPress:
  "type_x d = ButtonPress \<Longrightarrow> event_switch h d t g = case_ButtonPress h d t g"
  by (simp add: event_switch_def event_codes)

lemma switch_ButtonRelease:
  "type_x d = ButtonRelease \<Longrightarrow> event_switch h d t g = case_ButtonRelease h d t g"
  by (simp add: event_switch_def event_codes)

lemma switch_MotionNotify:
  "type_x d = MotionNotify \<Longrightarrow> event_switch h d t g = case_MotionNotify h d t g"
  by (simp add: event_switch_def event_codes)

lemma press_click_count:
  "click_count (snd (case_ButtonPress h d t g)) =
     (if within_multi_click h t g then click_count g + 1 else 1)"
  by (simp add: case_ButtonPress_def Let_def)

lemma press_click_time: "click_time (snd (case_ButtonPress h d t g)) = t"
  by (simp add: case_ButtonPress_def Let_def)

lemma press_mouse_dragged: "mouse_dragged (snd (case_ButtonPress h d t g)) = mouse_dragged g"
  by (simp add: case_ButtonPress_def Let_def)

lemma press_ordinary_events:
  "ordinary_button (detail d) \<Longrightarrow>
   fst (case_ButtonPress h d t g) =
     [NativeMouseButtonEvent NATIVE_MOUSE_PRESSED t (NativeToJEventMask h (ucast (state d)))
        (scast (rootX d)) (scast (rootY d))
        (ucast (click_count (snd (case_ButtonPress h d t g)))) (NativeToJButton h (detail d))]"
  by (simp add: case_ButtonPress_def Let_def)

lemma motion_click_count:
  "click_count (snd (case_MotionNotify h d t g)) =
     (if click_count g \<noteq> 0 \<and> \<not> within_multi_click h t g then 0 else click_count g)"
  by (simp add: case_MotionNotify_def Let_def)

lemma motion_events:
  "fst (case_MotionNotify h d t g) =
     [NativeMouseMotionEvent
        (if upper_half_set (motion_modifiers h d) then NATIVE_MOUSE_DRAGGED else NATIVE_MOUSE_MOVED)
        t (motion_modifiers h d) (scast (rootX d)) (scast (rootY d))
        (ucast (click_count (snd (case_MotionNotify h d t g))))]"
  by (simp add: case_MotionNotify_def motion_modifiers_def Let_def)

lemma motion_mouse_dragged:
  "mouse_dragged (snd (case_MotionNotify h d t g)) = upper_half_set (motion_modifiers h d)"
  by (simp add: case_MotionNotify_def motion_modifiers_def Let_def)

lemma other_events_keep_globals:
  "type_x d \<noteq> ButtonPress \<Longrightarrow> type_x d \<noteq> MotionNotify \<Longrightarrow>
   snd (event_switch h d t g) = g"
  by (simp add: event_switch_def case_KeyPress_def case_KeyRelease_def case_ButtonRelease_def
        Let_def)

lemma other_events_keep_flag:
  "type_x d \<noteq> MotionNotify \<Longrightarrow> mouse_dragged (snd (event_switch h d t g)) = mouse_dragged g"
  by (simp add: event_switch_def case_KeyPress_def case_KeyRelease_def case_ButtonRelease_def
        press_mouse_dragged Let_def)

lemma release_ids:
  "type_x r = ButtonRelease \<Longrightarrow> ordinary_button (detail r) \<Longrightarrow>
   map event_id_of (fst (event_switch h r t g)) =
     (if mouse_dragged g then [NATIVE_MOUSE_RELEASED]
      else [NATIVE_MOUSE_RELEASED, NATIVE_MOUSE_CLICKED])"
  by (simp add: switch_ButtonRelease case_ButtonRelease_def Let_def)

text \<open>When the callback reaches the switch, it does what the switch does.\<close>

lemma callback_proc_switch:
  assumes "category hook = XRecordFromServer \<or> category hook = XRecordFromClient"
    and "disp_ctrl s \<noteq> None" and "jni_ok" and "hook_running_mutex s"
  shows "callback_proc h jni_ok t hook s =
           Some (fst (event_switch h (data hook) t (mouse s)),
                 s\<lparr>mouse := snd (event_switch h (data hook) t (mouse s))\<rparr>)"
  using assms by (auto simp add: callback_proc_def split: prod.splits)

lemma callback_proc_mouse:
  assumes "callback_proc h jni_ok t hook s = Some (evs, s')"
  shows "mouse s' = mouse s \<or> mouse s' = snd (event_switch h (data hook) t (mouse s))"
  using assms by (auto simp add: callback_proc_def split: if_splits prod.splits)

section \<open>Streams of events\<close>

lemma snd_run_events_Cons:
  "snd (run_events h ((d, t) # es) g) = snd (run_events h es (snd (event_switch h d t g)))"
  by (simp split: prod.splits)

lemma fst_run_events_Cons:
  "fst (run_events h ((d, t) # es) g) =
     fst (event_switch h d t g) @ fst (run_events h es (snd (event_switch h d t g)))"
  by (simp split: prod.splits)

lemma snd_run_events_append:
  "snd (run_events h (xs @ ys) g) = snd (run_events h ys (snd (run_events h xs g)))"
proof (induction xs arbitrary: g)
  case Nil
  show ?case by simp
next
  case (Cons e xs)
  obtain d t where e: "e = (d, t)" by (cases e)
  show ?case
    using Cons.IH [of "snd (event_switch h d t g)"]
    by (simp add: e snd_run_events_Cons del: run_events.simps(2))
qed

lemma run_events_keep_flag:
  "\<forall>(d, t) \<in> set es. type_x d \<noteq> MotionNotify \<Longrightarrow>
   mouse_dragged (snd (run_events h es g)) = mouse_dragged g"
proof (induction es arbitrary: g)
  case Nil
  show ?case by simp
next
  case (Cons e es)
  obtain d t where e: "e = (d, t)" by (cases e)
  have "type_x d \<noteq> MotionNotify" using Cons.prems e by simp
  moreover have "\<forall>(d, t) \<in> set es. type_x d \<noteq> MotionNotify" using Cons.prems by simp
  ultimately show ?case
    using Cons.IH [of "snd (event_switch h d t g)"]
    by (simp add: e snd_run_events_Cons other_events_keep_flag del: run_events.simps(2))
qed

lemma flag_after_last_motion:
  assumes "type_x m = MotionNotify" and "\<forall>(d, t) \<in> set post. type_x d \<noteq> MotionNotify"
  shows "mouse_dragged (snd (run_events h (pre @ (m, tm) # post) g)) =
           upper_half_set (motion_modifiers h m)"
proof -
  have "mouse_dragged (snd (run_events h (pre @ (m, tm) # post) g)) =
      mouse_dragged (snd (event_switch h m tm (snd (run_events h pre g))))"
    using assms(2)
    by (simp add: snd_run_events_append snd_run_events_Cons run_events_keep_flag
          del: run_events.simps(2))
  then show ?thesis
    using assms(1) by (simp add: switch_MotionNotify motion_mouse_dragged)
qed

text \<open>With clock readings that are not negative, the last click time is never negative.\<close>

lemma click_time_nonneg_step:
  "0 \<le> sint (click_time g) \<Longrightarrow> 0 \<le> sint t \<Longrightarrow>
   0 \<le> sint (click_time (snd (event_switch h d t g)))"
  by (simp add: event_switch_def case_KeyPress_def case_KeyRelease_def case_ButtonPress_def
        case_ButtonRelease_def case_MotionNotify_def Let_def)

lemma click_time_nonneg:
  "0 \<le> sint (click_time g) \<Longrightarrow> \<forall>(d, t) \<in> set es. 0 \<le> sint t \<Longrightarrow>
   0 \<le> sint (click_time (snd (run_events h es g)))"
proof (induction es arbitrary: g)
  case Nil
  then show ?case by simp
next
  case (Cons e es)
  obtain d t where e: "e = (d, t)" by (cases e)
  have "0 \<le> sint (click_time (snd (event_switch h d t g)))"
    using Cons.prems e by (simp add: click_time_nonneg_step)
  then show ?case
    using Cons.IH [of "snd (event_switch h d t g)"] Cons.prems
    by (simp add: e snd_run_events_Cons del: run_events.simps(2))
qed

lemma first_press_counts_one:
  "type_x d = ButtonPress \<Longrightarrow> click_count (snd (event_switch h d t initial_globals)) = 1"
  by (simp add: switch_ButtonPress press_click_count initial_globals_def)

lemma four_presses:
  assumes p: "type_x d1 = ButtonPress" "type_x d2 = ButtonPress" "type_x d3 = ButtonPress"
      "type_x d4 = ButtonPress"
    and t: "0 \<le> sint t1" "0 \<le> sint t2" "0 \<le> sint t3" "0 \<le> sint t4"
    and i: "sint t2 - sint t1 \<le> sint (GetMultiClickTime h)"
      "sint t3 - sint t2 \<le> sint (GetMultiClickTime h)"
      "sint (GetMultiClickTime h) < sint t4 - sint t3"
  shows "click_count (snd (run_events h [(d1, t1)] initial_globals)) = 1
    \<and> click_count (snd (run_events h [(d1, t1), (d2, t2)] initial_globals)) = 2
    \<and> click_count (snd (run_events h [(d1, t1), (d2, t2), (d3, t3)] initial_globals)) = 3
    \<and> click_count (snd (run_events h [(d1, t1), (d2, t2), (d3, t3), (d4, t4)] initial_globals)) = 1"
proof -
  define g1 where "g1 = snd (event_switch h d1 t1 initial_globals)"
  define g2 where "g2 = snd (event_switch h d2 t2 g1)"
  define g3 where "g3 = snd (event_switch h d3 t3 g2)"
  define g4 where "g4 = snd (event_switch h d4 t4 g3)"
  have c1: "click_count g1 = 1"
    using p(1) by (simp add: g1_def first_press_counts_one)
  have k1: "click_time g1 = t1"
    using p(1) by (simp add: g1_def switch_ButtonPress press_click_time)
  have c2: "click_count g2 = 2" and k2: "click_time g2 = t2"
    using p(2) t i(1) c1 k1
    by (simp_all add: g2_def switch_ButtonPress press_click_count press_click_time
          within_multi_click_int)
  have c3: "click_count g3 = 3" and k3: "click_time g3 = t3"
    using p(3) t i(2) c2 k2
    by (simp_all add: g3_def switch_ButtonPress press_click_count press_click_time
          within_multi_click_int)
  have c4: "click_count g4 = 1"
    using p(4) t i(3) c3 k3
    by (simp add: g4_def switch_ButtonPress press_click_count within_multi_click_int)
  show ?thesis
    using c1 c2 c3 c4
    by (simp add: g1_def g2_def g3_def g4_def snd_run_events_Cons del: run_events.simps(2))
qed

lemma four_presses_payload:
  assumes p: "type_x d1 = ButtonPress" "type_x d2 = ButtonPress" "type_x d3 = ButtonPress"
      "type_x d4 = ButtonPress"
    and b: "ordinary_button (detail d1)" "ordinary_button (detail d2)"
      "ordinary_button (detail d3)" "ordinary_button (detail d4)"
    and t: "0 \<le> sint t1" "0 \<le> sint t2" "0 \<le> sint t3" "0 \<le> sint t4"
    and i: "sint t2 - sint t1 \<le> sint (GetMultiClickTime h)"
      "sint t3 - sint t2 \<le> sint (GetMultiClickTime h)"
      "sint (GetMultiClickTime h) < sint t4 - sint t3"
  shows "map clicks_of (fst (run_events h [(d1, t1), (d2, t2), (d3, t3), (d4, t4)] initial_globals))
           = [1, 2, 3, 1]"
proof -
  note c = four_presses [OF p t i]
  have e: "\<And>d t g. type_x d = ButtonPress \<Longrightarrow> ordinary_button (detail d) \<Longrightarrow>
      map clicks_of (fst (event_switch h d t g)) = [ucast (click_count (snd (event_switch h d t g)))]"
    by (simp add: switch_ButtonPress press_ordinary_events)
  show ?thesis
    using c p b
    by (simp add: fst_run_events_Cons snd_run_events_Cons e del: run_events.simps(2))
qed

section \<open>The setup path of \<^verbatim>\<open>start_native_thread\<close>\<close>

lemmas start_defs = start_native_thread_def open_and_enable_def spawn_and_wait_def
  XRecordEnableContext_def XOpenDisplay_def call_def is_hook_thread_running_def thread_proc_def
  callback_proc_def

lemmas sample_defs = good_platform_def no_extension_def no_display_def no_thread_def
  idle_hook_def running_hook_def start_of_data_def sample_env_def xevent_def

lemma call_frame:
  "hook_control_mutex (call t c s) = hook_control_mutex s"
  "hook_running_mutex (call t c s) = hook_running_mutex s"
  "capture_threads (call t c s) = capture_threads s"
  "context_x (call t c s) = context_x s"
  "disp_ctrl (call t c s) = disp_ctrl s"
  by (simp_all add: call_def)

lemma XOpenDisplay_frame:
  "hook_control_mutex (XOpenDisplay r s) = hook_control_mutex s"
  "hook_running_mutex (XOpenDisplay r s) = hook_running_mutex s"
  "capture_threads (XOpenDisplay r s) = capture_threads s"
  "context_x (XOpenDisplay r s) = context_x s"
  "disp_ctrl (XOpenDisplay r s) = disp_ctrl s"
  by (simp_all add: XOpenDisplay_def call_frame Let_def split: option.splits)

lemma enable_fails:
  "XRecordEnableContext h t EnableFails s = (Some False, call t Call_XRecordEnableContext s)"
  by (simp add: XRecordEnableContext_def)

lemma open_and_enable_before_context:
  assumes "XOpenDisplay_ctrl p = None \<or> XOpenDisplay_data p = None
     \<or> \<not> XRecordQueryVersion p \<or> \<not> XRecordAllocRange p"
  shows "fst (open_and_enable h p s) = Some RETURN_FAILURE"
    and "hook_control_mutex (snd (open_and_enable h p s)) = hook_control_mutex s"
    and "hook_running_mutex (snd (open_and_enable h p s)) = hook_running_mutex s"
    and "capture_threads (snd (open_and_enable h p s)) = capture_threads s"
    and "context_x (snd (open_and_enable h p s)) = context_x s"
  using assms
  by (auto simp add: open_and_enable_def Let_def call_frame XOpenDisplay_frame)

lemma open_and_enable_enable_fails:
  assumes "enable_in_start p = EnableFails"
  shows "fst (open_and_enable h p s) = Some RETURN_FAILURE"
    and "hook_control_mutex (snd (open_and_enable h p s)) = hook_control_mutex s"
    and "hook_running_mutex (snd (open_and_enable h p s)) = hook_running_mutex s"
    and "capture_threads (snd (open_and_enable h p s)) = capture_threads s"
    and "context_x (snd (open_and_enable h p s)) = context_x s
         \<or> context_x (snd (open_and_enable h p s)) = XRecordCreateContext p"
  using assms
  by (simp_all add: open_and_enable_def Let_def call_frame XOpenDisplay_frame enable_fails)

lemma spawn_and_wait_no_thread:
  assumes "context_x s = 0 \<or> \<not> pthread_create p"
  shows "fst (spawn_and_wait h p st s) = Some st"
    and "hook_control_mutex (snd (spawn_and_wait h p st s)) = hook_control_mutex s"
    and "hook_running_mutex (snd (spawn_and_wait h p st s)) = hook_running_mutex s"
    and "capture_threads (snd (spawn_and_wait h p st s)) = capture_threads s"
  using assms by (auto simp add: spawn_and_wait_def Let_def call_frame)

text \<open>
  The calls made: the callback makes none, the enable call is recorded for the thread that
  makes it, and once the setup has a range, \<^verbatim>\<open>start_native_thread\<close> has made the enable
  call on the caller's thread whatever the platform answers afterwards.
\<close>

lemma callback_proc_xcalls:
  "callback_proc h jni_ok t hook s = Some (evs, s') \<Longrightarrow> xcalls s' = xcalls s"
  by (auto simp add: callback_proc_def split: if_splits prod.splits)

lemma deliver_xcalls: "xcalls (snd (deliver h ds s)) = xcalls s"
proof (induction ds arbitrary: s)
  case Nil
  show ?case by simp
next
  case (Cons e ds)
  obtain jni_ok t hook where e: "e = (jni_ok, t, hook)" by (cases e)
  show ?case
  proof (cases "callback_proc h jni_ok t hook s")
    case None
    then show ?thesis by (simp add: e)
  next
    case (Some r)
    obtain evs s' where r: "r = (evs, s')" by (cases r)
    show ?thesis
      using Cons.IH [of s'] callback_proc_xcalls [of h jni_ok t hook s evs s'] Some
      by (simp add: e r)
  qed
qed

lemma XRecordEnableContext_xcalls:
  "xcalls (snd (XRecordEnableContext h t r s)) = xcalls s @ [(t, Call_XRecordEnableContext)]"
proof (cases r)
  case EnableFails
  then show ?thesis by (simp add: XRecordEnableContext_def call_def)
next
  case (EnableReturns ds)
  have "xcalls (snd (deliver h ds (call t Call_XRecordEnableContext s)))
      = xcalls s @ [(t, Call_XRecordEnableContext)]"
    by (simp add: deliver_xcalls call_def)
  then show ?thesis
    using EnableReturns
    by (cases "deliver h ds (call t Call_XRecordEnableContext s)")
       (auto simp add: XRecordEnableContext_def Let_def split: bool.splits)
next
  case (EnableBlocks ds)
  then show ?thesis by (simp add: XRecordEnableContext_def deliver_xcalls call_def)
qed

lemma snd_status_of_enable:
  "snd (case x of (None, s) \<Rightarrow> (None, s)
               | (Some True, s) \<Rightarrow> (Some RETURN_SUCCESS, s)
               | (Some False, s) \<Rightarrow> (Some RETURN_FAILURE, s)) = snd x"
  by (simp split: prod.splits option.splits bool.splits)

lemma open_and_enable_calls_enable:
  assumes "XOpenDisplay_ctrl p \<noteq> None" "XOpenDisplay_data p \<noteq> None"
    "XRecordQueryVersion p" "XRecordAllocRange p"
  shows "(Caller, Call_XRecordEnableContext) \<in> set (xcalls (snd (open_and_enable h p s)))"
  using assms
  by (simp add: open_and_enable_def Let_def XOpenDisplay_frame snd_status_of_enable
        XRecordEnableContext_xcalls)

lemma thread_proc_xcalls:
  "set (xcalls s) \<subseteq> set (xcalls (snd (thread_proc h r s)))"
proof -
  obtain e s1 where x: "XRecordEnableContext h Capture r s = (e, s1)"
    by (cases "XRecordEnableContext h Capture r s")
  have "xcalls s1 = xcalls s @ [(Capture, Call_XRecordEnableContext)]"
    using XRecordEnableContext_xcalls [of h Capture r s] x by simp
  then show ?thesis
    by (cases e) (auto simp add: thread_proc_def x)
qed

lemma spawn_and_wait_xcalls:
  "set (xcalls s) \<subseteq> set (xcalls (snd (spawn_and_wait h p st s)))"
proof -
  define s1 where "s1 = (call Caller Call_pthread_create s)
      \<lparr>capture_threads := Suc (capture_threads (call Caller Call_pthread_create s))\<rparr>"
  obtain e s2 where x: "thread_proc h (enable_in_thread p) s1 = (e, s2)"
    by (cases "thread_proc h (enable_in_thread p) s1")
  have "set (xcalls s1) \<subseteq> set (xcalls s2)"
    using thread_proc_xcalls [of s1 h "enable_in_thread p"] x by simp
  then have "set (xcalls s) \<subseteq> set (xcalls s2)"
    by (auto simp add: s1_def call_def)
  moreover have "snd (spawn_and_wait h p st s) =
      (if context_x s \<noteq> 0 \<and> pthread_create p
       then (if hook_control_mutex s2 \<or> is_hook_thread_running s2 then s2
             else call Caller Call_pthread_join s2)
       else if context_x s \<noteq> 0 then call Caller Call_pthread_create s else s)"
    by (simp add: spawn_and_wait_def Let_def s1_def [symmetric] x split: option.splits)
  ultimately show ?thesis
    by (auto simp add: call_def)
qed

lemma start_calls_enable:
  assumes "idle s" and "XOpenDisplay_ctrl p \<noteq> None" "XOpenDisplay_data p \<noteq> None"
    "XRecordQueryVersion p" "XRecordAllocRange p"
  shows "(Caller, Call_XRecordEnableContext) \<in> set (xcalls (snd (start_native_thread h p s)))"
proof -
  define s1 where "s1 = (s\<lparr>hook_control_mutex := True\<rparr>)\<lparr>context_x := 0\<rparr>"
  obtain r2 s2 where oe: "open_and_enable h p s1 = (r2, s2)"
    by (cases "open_and_enable h p s1")
  have c2: "(Caller, Call_XRecordEnableContext) \<in> set (xcalls s2)"
    using open_and_enable_calls_enable [OF assms(2-5), of h s1] oe by simp
  show ?thesis
  proof (cases r2)
    case None
    then show ?thesis
      using assms(1) oe c2
      by (simp add: start_native_thread_def is_hook_thread_running_def idle_def Let_def
            s1_def [symmetric])
  next
    case (Some st)
    define s2' where "s2' = call Caller Call_LoadInputHelper s2"
    obtain r3 s3 where sw: "spawn_and_wait h p st s2' = (r3, s3)"
      by (cases "spawn_and_wait h p st s2'")
    have "(Caller, Call_XRecordEnableContext) \<in> set (xcalls s2')"
      using c2 by (simp add: s2'_def call_def)
    then have c3: "(Caller, Call_XRecordEnableContext) \<in> set (xcalls s3)"
      using spawn_and_wait_xcalls [of s2' h p st] sw by auto
    show ?thesis
      using assms(1) oe sw c3 Some
      by (cases r3)
         (simp_all add: start_native_thread_def is_hook_thread_running_def idle_def Let_def
            s1_def [symmetric] s2'_def [symmetric])
  qed
qed

section \<open>The claims\<close>

subsection \<open>The gesture tracker\<close>

text \<open>
  C1: the click counter. A button press at time \<open>t\<close> with \<open>t\<close> minus the last click
  time at most the multi-click time increments \<^verbatim>\<open>click_count\<close> (an unsigned short: the
  increment is that of the 16-bit counter), a later press sets it to 1, every press stores
  its time as the last click time, and a motion event that finds a nonzero count more
  than the multi-click time after the last click sets the count to 0. From the initial
  globals, three presses each within the multi-click time of the one before leave the
  counts 1, 2, 3 and a fourth press after the multi-click time leaves 1; for ordinary
  buttons these are the click counts that the four pressed events carry. Clock readings
  are milliseconds since the epoch, so they and the last click time are not negative and
  the difference of the source is the difference of the integers.
\<close>

theorem click_counter:
  "(type_x d = ButtonPress \<longrightarrow> 0 \<le> sint t \<longrightarrow> 0 \<le> sint (click_time g) \<longrightarrow>
      sint t - sint (click_time g) \<le> sint (GetMultiClickTime h) \<longrightarrow>
      click_count (snd (event_switch h d t g)) = click_count g + 1)
   \<and> (type_x d = ButtonPress \<longrightarrow> 0 \<le> sint t \<longrightarrow> 0 \<le> sint (click_time g) \<longrightarrow>
      sint (GetMultiClickTime h) < sint t - sint (click_time g) \<longrightarrow>
      click_count (snd (event_switch h d t g)) = 1)
   \<and> (type_x d = ButtonPress \<longrightarrow> click_time (snd (event_switch h d t g)) = t)
   \<and> (type_x d = MotionNotify \<longrightarrow> 0 \<le> sint t \<longrightarrow> 0 \<le> sint (click_time g) \<longrightarrow>
      click_count g \<noteq> 0 \<longrightarrow> sint (GetMultiClickTime h) < sint t - sint (click_time g) \<longrightarrow>
      click_count (snd (event_switch h d t g)) = 0)
   \<and> (type_x d1 = ButtonPress \<and> type_x d2 = ButtonPress \<and> type_x d3 = ButtonPress
      \<and> type_x d4 = ButtonPress
      \<and> 0 \<le> sint t1 \<and> 0 \<le> sint t2 \<and> 0 \<le> sint t3 \<and> 0 \<le> sint t4
      \<and> sint t2 - sint t1 \<le> sint (GetMultiClickTime h)
      \<and> sint t3 - sint t2 \<le> sint (GetMultiClickTime h)
      \<and> sint (GetMultiClickTime h) < sint t4 - sint t3 \<longrightarrow>
      click_count (snd (run_events h [(d1, t1)] initial_globals)) = 1
      \<and> click_count (snd (run_events h [(d1, t1), (d2, t2)] initial_globals)) = 2
      \<and> click_count (snd (run_events h [(d1, t1), (d2, t2), (d3, t3)] initial_globals)) = 3
      \<and> click_count (snd (run_events h [(d1, t1), (d2, t2), (d3, t3), (d4, t4)]
           initial_globals)) = 1
      \<and> (ordinary_button (detail d1) \<and> ordinary_button (detail d2)
          \<and> ordinary_button (detail d3) \<and> ordinary_button (detail d4) \<longrightarrow>
          map clicks_of (fst (run_events h [(d1, t1), (d2, t2), (d3, t3), (d4, t4)]
            initial_globals)) = [1, 2, 3, 1]))"
proof -
  have steps:
    "type_x d = ButtonPress \<longrightarrow> 0 \<le> sint t \<longrightarrow> 0 \<le> sint (click_time g) \<longrightarrow>
      sint t - sint (click_time g) \<le> sint (GetMultiClickTime h) \<longrightarrow>
      click_count (snd (event_switch h d t g)) = click_count g + 1"
    "type_x d = ButtonPress \<longrightarrow> 0 \<le> sint t \<longrightarrow> 0 \<le> sint (click_time g) \<longrightarrow>
      sint (GetMultiClickTime h) < sint t - sint (click_time g) \<longrightarrow>
      click_count (snd (event_switch h d t g)) = 1"
    "type_x d = ButtonPress \<longrightarrow> click_time (snd (event_switch h d t g)) = t"
    "type_x d = MotionNotify \<longrightarrow> 0 \<le> sint t \<longrightarrow> 0 \<le> sint (click_time g) \<longrightarrow>
      click_count g \<noteq> 0 \<longrightarrow> sint (GetMultiClickTime h) < sint t - sint (click_time g) \<longrightarrow>
      click_count (snd (event_switch h d t g)) = 0"
    by (simp_all add: switch_ButtonPress switch_MotionNotify press_click_count press_click_time
          motion_click_count within_multi_click_int)
  show ?thesis
    using steps four_presses [of d1 d2 d3 d4 t1 t2 t3 t4 h]
      four_presses_payload [of d1 d2 d3 d4 t1 t2 t3 t4 h]
    by blast
qed

theorem click_counter_witness:
  "click_count (snd (event_switch sample_env (xevent ButtonPress 1 0) 1100 one_click)) = 2
   \<and> click_count (snd (event_switch sample_env (xevent ButtonPress 1 0) 2000 one_click)) = 1
   \<and> click_time (snd (event_switch sample_env (xevent ButtonPress 1 0) 2000 one_click)) = 2000
   \<and> click_count (snd (event_switch sample_env (xevent MotionNotify 0 0) 2000 one_click)) = 0
   \<and> map clicks_of (fst (run_events sample_env
        [(xevent ButtonPress 1 0, 1000), (xevent ButtonPress 1 0, 1100),
         (xevent ButtonPress 1 0, 1200), (xevent ButtonPress 1 0, 5000)] initial_globals))
      = [1, 2, 3, 1]"
  using click_counter [of "xevent ButtonPress 1 0" 1100 one_click sample_env
      "xevent ButtonPress 1 0" "xevent ButtonPress 1 0" "xevent ButtonPress 1 0"
      "xevent ButtonPress 1 0" 1000 1100 1200 5000]
    click_counter [of "xevent ButtonPress 1 0" 2000 one_click sample_env]
    click_counter [of "xevent MotionNotify 0 0" 2000 one_click sample_env]
  by (simp add: sample_env_def xevent_def one_click_def event_codes ordinary_button_def
        del: run_events.simps)

text \<open>
  C2 (as amended): a release of an ordinary button dispatches the released event and,
  exactly when the dragging flag is clear, the clicked event after it. The flag is the
  classification of the latest motion event of the whole stream, whichever press it came
  before: after a stream whose latest motion event was a drag the release dispatches the
  released event alone, after one whose latest motion event was a move it dispatches both,
  and so it does after a stream from the initial globals without any motion event.
\<close>

theorem release_clicks_unless_flag:
  assumes "type_x r = ButtonRelease" and "ordinary_button (detail r)"
  shows "map event_id_of (fst (event_switch h r t g)) =
           (if mouse_dragged g then [NATIVE_MOUSE_RELEASED]
            else [NATIVE_MOUSE_RELEASED, NATIVE_MOUSE_CLICKED])
    \<and> (type_x m = MotionNotify \<longrightarrow> (\<forall>(d, t') \<in> set post. type_x d \<noteq> MotionNotify) \<longrightarrow>
         map event_id_of
           (fst (event_switch h r t (snd (run_events h (pre @ (m, tm) # post) g)))) =
           (if upper_half_set (motion_modifiers h m) then [NATIVE_MOUSE_RELEASED]
            else [NATIVE_MOUSE_RELEASED, NATIVE_MOUSE_CLICKED]))
    \<and> ((\<forall>(d, t') \<in> set es. type_x d \<noteq> MotionNotify) \<longrightarrow>
         map event_id_of (fst (event_switch h r t (snd (run_events h es initial_globals)))) =
           [NATIVE_MOUSE_RELEASED, NATIVE_MOUSE_CLICKED])"
proof -
  have i: "\<not> mouse_dragged initial_globals" by (simp add: initial_globals_def)
  show ?thesis
    using flag_after_last_motion [of m post h pre tm g] run_events_keep_flag [of es h initial_globals] i
    by (simp add: release_ids [OF assms])
qed

theorem release_clicks_unless_flag_witness:
  "type_x (xevent ButtonRelease 1 0x100) = ButtonRelease
   \<and> ordinary_button (detail (xevent ButtonRelease 1 0x100))
   \<and> map event_id_of (fst (event_switch sample_env (xevent ButtonRelease 1 0x100) 1100 one_click))
       = [NATIVE_MOUSE_RELEASED, NATIVE_MOUSE_CLICKED]
   \<and> map event_id_of (fst (event_switch sample_env (xevent ButtonRelease 1 0x100) 1100
        (snd (run_events sample_env
           [(xevent ButtonPress 1 0, 1000), (xevent MotionNotify 0 0x100, 1050)] initial_globals))))
       = [NATIVE_MOUSE_RELEASED]
   \<and> map event_id_of (fst (event_switch sample_env (xevent ButtonRelease 1 0x100) 1100
        (snd (run_events sample_env [(xevent ButtonPress 1 0, 1000)] initial_globals))))
       = [NATIVE_MOUSE_RELEASED, NATIVE_MOUSE_CLICKED]"
proof -
  have a: "type_x (xevent ButtonRelease 1 0x100) = ButtonRelease"
    and b: "ordinary_button (detail (xevent ButtonRelease 1 0x100))"
    by (simp_all add: xevent_def ordinary_button_def)
  have u: "upper_half_set (motion_modifiers sample_env (xevent MotionNotify 0 0x100))"
    by (simp add: upper_half_set_def motion_modifiers_def sample_env_def xevent_def)
  have n: "\<not> mouse_dragged one_click" by (simp add: one_click_def)
  have e: "[(xevent ButtonPress 1 0, 1000), (xevent MotionNotify 0 0x100, 1050)]
      = [(xevent ButtonPress 1 0, 1000)] @ (xevent MotionNotify 0 0x100, 1050) # []"
    by simp
  show ?thesis
    unfolding e
    using a b u n
      release_clicks_unless_flag [OF a b, of sample_env 1100 one_click
        "xevent MotionNotify 0 0x100" "[]" "[(xevent ButtonPress 1 0, 1000)]" 1050
        "[(xevent ButtonPress 1 0, 1000)]"]
      release_clicks_unless_flag [OF a b, where h = sample_env and t = 1100 and g = initial_globals
        and m = "xevent MotionNotify 0 0x100" and post = "[]"
        and pre = "[(xevent ButtonPress 1 0, 1000)]" and tm = 1050
        and es = "[(xevent ButtonPress 1 0, 1000)]"]
    by (simp add: xevent_def event_codes del: run_events.simps)
qed

text \<open>
  C2 as stated fails: with a clicked event dispatched if and only if no drag came between
  the corresponding press and the release. Button 1 is pressed, dragged and released, and
  pressed again with no motion at all; its second release has no drag since its press and
  still dispatches no clicked event, because the flag of the earlier drag is still set.
\<close>

theorem click_missing_without_drag_since_press:
  "\<not> ((NATIVE_MOUSE_CLICKED \<in> set (map event_id_of
          (fst (event_switch sample_env (xevent ButtonRelease 1 0x100) 5100
                 (snd (run_events sample_env drag_then_click initial_globals))))))
       \<longleftrightarrow> \<not> drag_since_press sample_env 1 drag_then_click)"
proof -
  have u: "upper_half_set (motion_modifiers sample_env (xevent MotionNotify 0 0x100))"
    by (simp add: upper_half_set_def motion_modifiers_def sample_env_def xevent_def)
  have f: "mouse_dragged (snd (run_events sample_env drag_then_click initial_globals))"
  proof -
    have "mouse_dragged (snd (run_events sample_env
             ([(xevent ButtonPress 1 0, 1000)] @ (xevent MotionNotify 0 0x100, 1050)
                # [(xevent ButtonRelease 1 0x100, 1100), (xevent ButtonPress 1 0, 5000)])
             initial_globals)) =
          upper_half_set (motion_modifiers sample_env (xevent MotionNotify 0 0x100))"
      by (rule flag_after_last_motion) (simp_all add: xevent_def event_codes)
    then show ?thesis
      using u by (simp add: drag_then_click_def del: run_events.simps)
  qed
  have r: "map event_id_of
          (fst (event_switch sample_env (xevent ButtonRelease 1 0x100) 5100
                 (snd (run_events sample_env drag_then_click initial_globals)))) = [NATIVE_MOUSE_RELEASED]"
    using f by (simp add: release_ids xevent_def ordinary_button_def)
  have n: "\<not> drag_since_press sample_env 1 drag_then_click"
    by (simp add: drag_since_press_def since_press_def drag_then_click_def xevent_def event_codes)
  show ?thesis using r n by simp
qed

text \<open>
  C3 (as amended): a motion event dispatches one event and sets the dragging flag by the
  test \<^verbatim>\<open>jmodifiers >> 4 > 0\<close> on the signed translated mask, that is, by whether the
  mask is at least 16. For a mask that is not negative, as a set of modifier and button
  bits is, the event is the dragged event if a bit at position 4 or above is set, in the
  upper nibble or beyond it, and the moved event otherwise, and the flag is set exactly
  when such a bit is set. For a mask that fits one byte this is the upper nibble being
  nonzero.
\<close>

theorem motion_classification:
  assumes "type_x d = MotionNotify"
  shows "map event_id_of (fst (event_switch h d t g)) =
           [if 16 \<le> sint (motion_modifiers h d)
            then NATIVE_MOUSE_DRAGGED else NATIVE_MOUSE_MOVED]
    \<and> mouse_dragged (snd (event_switch h d t g)) = (16 \<le> sint (motion_modifiers h d))
    \<and> (0 \<le> sint (motion_modifiers h d) \<longrightarrow>
         map event_id_of (fst (event_switch h d t g)) =
           [if \<exists>n\<ge>4. bit (motion_modifiers h d) n
            then NATIVE_MOUSE_DRAGGED else NATIVE_MOUSE_MOVED]
         \<and> mouse_dragged (snd (event_switch h d t g)) =
             (\<exists>n\<ge>4. bit (motion_modifiers h d) n))
    \<and> (motion_modifiers h d \<le> 0xFF \<longrightarrow>
         map event_id_of (fst (event_switch h d t g)) =
           [if motion_modifiers h d AND 0xF0 \<noteq> 0
            then NATIVE_MOUSE_DRAGGED else NATIVE_MOUSE_MOVED]
         \<and> mouse_dragged (snd (event_switch h d t g)) =
             (motion_modifiers h d AND 0xF0 \<noteq> 0))"
proof -
  let ?m = "motion_modifiers h d"
  have ids: "map event_id_of (fst (event_switch h d t g)) =
      [if upper_half_set ?m then NATIVE_MOUSE_DRAGGED else NATIVE_MOUSE_MOVED]"
    and flag: "mouse_dragged (snd (event_switch h d t g)) = upper_half_set ?m"
    using assms by (simp_all add: switch_MotionNotify motion_events motion_mouse_dragged)
  have s: "upper_half_set ?m = (16 \<le> sint ?m)"
    by (rule upper_half_set_sint)
  have b: "0 \<le> sint ?m \<Longrightarrow> upper_half_set ?m = (\<exists>n\<ge>4. bit ?m n)"
    by (rule upper_half_set_bits)
  have n: "?m \<le> 0xFF \<Longrightarrow> upper_half_set ?m = (?m AND 0xF0 \<noteq> 0)"
    by (rule upper_nibble)
  have c1: "map event_id_of (fst (event_switch h d t g)) =
      [if 16 \<le> sint ?m then NATIVE_MOUSE_DRAGGED else NATIVE_MOUSE_MOVED]"
    and c2: "mouse_dragged (snd (event_switch h d t g)) = (16 \<le> sint ?m)"
    using ids flag s by simp_all
  have c3: "0 \<le> sint ?m \<longrightarrow>
      map event_id_of (fst (event_switch h d t g)) =
        [if \<exists>n\<ge>4. bit ?m n then NATIVE_MOUSE_DRAGGED else NATIVE_MOUSE_MOVED]
      \<and> mouse_dragged (snd (event_switch h d t g)) = (\<exists>n\<ge>4. bit ?m n)"
    using ids flag b by simp
  have c4: "?m \<le> 0xFF \<longrightarrow>
      map event_id_of (fst (event_switch h d t g)) =
        [if ?m AND 0xF0 \<noteq> 0 then NATIVE_MOUSE_DRAGGED else NATIVE_MOUSE_MOVED]
      \<and> mouse_dragged (snd (event_switch h d t g)) = (?m AND 0xF0 \<noteq> 0)"
    using ids flag n by simp
  show ?thesis
    using c1 c2 c3 c4 by (intro conjI)
qed

theorem motion_classification_witness:
  "type_x (xevent MotionNotify 0 0x100) = MotionNotify
   \<and> 0 \<le> sint (motion_modifiers sample_env (xevent MotionNotify 0 0x100))
   \<and> motion_modifiers sample_env (xevent MotionNotify 0 0x100) \<le> 0xFF
   \<and> map event_id_of (fst (event_switch sample_env (xevent MotionNotify 0 0x100) 1000 one_click))
       = [NATIVE_MOUSE_DRAGGED]
   \<and> mouse_dragged (snd (event_switch sample_env (xevent MotionNotify 0 0x100) 1000 one_click))
   \<and> type_x (xevent MotionNotify 0 1) = MotionNotify
   \<and> 0 \<le> sint (motion_modifiers sample_env (xevent MotionNotify 0 1))
   \<and> motion_modifiers sample_env (xevent MotionNotify 0 1) \<le> 0xFF
   \<and> map event_id_of (fst (event_switch sample_env (xevent MotionNotify 0 1) 1000 one_click))
       = [NATIVE_MOUSE_MOVED]
   \<and> \<not> mouse_dragged (snd (event_switch sample_env (xevent MotionNotify 0 1) 1000 one_click))"
proof -
  have a: "type_x (xevent MotionNotify 0 0x100) = MotionNotify"
    and m: "motion_modifiers sample_env (xevent MotionNotify 0 0x100) = 0x10"
    and a': "type_x (xevent MotionNotify 0 1) = MotionNotify"
    and m': "motion_modifiers sample_env (xevent MotionNotify 0 1) = 0"
    by (simp_all add: xevent_def motion_modifiers_def sample_env_def)
  show ?thesis
    using a a' motion_classification [OF a, of sample_env 1000 one_click]
      motion_classification [OF a', of sample_env 1000 one_click]
    by (simp add: m m')
qed

text \<open>
  C3 as stated fails: with the dragged event only for a button bit in the upper nibble.
  A motion event arrives while native button 5 is down (state 0x1000); the translated
  mask is 0x100, whose upper nibble is zero, and yet the dragged event is dispatched and
  the flag is set, since bit 8 is above the low four bits.
\<close>

theorem dragged_outside_upper_nibble:
  "type_x (xevent MotionNotify 0 0x1000) = MotionNotify
   \<and> motion_modifiers sample_env (xevent MotionNotify 0 0x1000) = 0x100
   \<and> motion_modifiers sample_env (xevent MotionNotify 0 0x1000) AND 0xF0 = 0
   \<and> map event_id_of (fst (event_switch sample_env (xevent MotionNotify 0 0x1000) 1000 one_click))
       = [NATIVE_MOUSE_DRAGGED]
   \<and> mouse_dragged (snd (event_switch sample_env (xevent MotionNotify 0 0x1000) 1000 one_click))"
proof -
  have a: "type_x (xevent MotionNotify 0 0x1000) = MotionNotify"
    and m: "motion_modifiers sample_env (xevent MotionNotify 0 0x1000) = 0x100"
    by (simp_all add: xevent_def motion_modifiers_def sample_env_def)
  have u: "upper_half_set (0x100 :: jint)"
    by (simp add: upper_half_set_def)
  show ?thesis
    using a u by (simp add: switch_MotionNotify motion_events motion_mouse_dragged m)
qed

subsection \<open>The life cycle\<close>

text \<open>
  C4, evaluated where it fails: \<^verbatim>\<open>start_native_thread\<close> is called in the idle process
  and every platform call succeeds. The caller's own thread makes the enable call (lines
  507 to 521) before any thread is created; the call waits for events as documented, so
  \<^verbatim>\<open>start_native_thread\<close> does not return, no capture thread exists, and it is the
  caller's thread that ran the start-of-data callback and holds the running mutex.
\<close>

theorem start_enables_on_caller_thread:
  "fst (start_native_thread sample_env good_platform idle_hook) = None
   \<and> (Caller, Call_XRecordEnableContext)
       \<in> set (xcalls (snd (start_native_thread sample_env good_platform idle_hook)))
   \<and> (Caller, Call_pthread_create)
       \<notin> set (xcalls (snd (start_native_thread sample_env good_platform idle_hook)))
   \<and> capture_threads (snd (start_native_thread sample_env good_platform idle_hook)) = 0
   \<and> hook_running_mutex (snd (start_native_thread sample_env good_platform idle_hook))"
  by (simp add: start_defs sample_defs Let_def)

text \<open>
  C5 (as amended): from the idle process, on every failing setup path on which the
  caller's own enable call is not reached or fails (a connection cannot be opened, the
  extension is missing, the range is not allocated, the context is not created, the thread
  is not created), \<^verbatim>\<open>start_native_thread\<close> returns \<^verbatim>\<open>RETURN_FAILURE\<close>, the one failure
  status there is, with the control mutex released, \<^verbatim>\<open>is_hook_thread_running\<close> false and
  no capture thread alive.
\<close>

theorem failed_setup:
  assumes "idle s" and "setup_fails p"
  shows "fst (start_native_thread h p s) = Some RETURN_FAILURE
    \<and> \<not> is_hook_thread_running (snd (start_native_thread h p s))
    \<and> capture_threads (snd (start_native_thread h p s)) = 0
    \<and> \<not> hook_control_mutex (snd (start_native_thread h p s))"
proof -
  define s1 where "s1 = (s\<lparr>hook_control_mutex := True\<rparr>)\<lparr>context_x := 0\<rparr>"
  obtain r2 s2 where oe: "open_and_enable h p s1 = (r2, s2)"
    by (cases "open_and_enable h p s1")
  have s1: "\<not> hook_running_mutex s1" "capture_threads s1 = 0" "context_x s1 = 0"
    using assms(1) by (simp_all add: s1_def idle_def)
  have early: "XOpenDisplay_ctrl p = None \<or> XOpenDisplay_data p = None
      \<or> \<not> XRecordQueryVersion p \<or> \<not> XRecordAllocRange p
      \<or> (enable_in_start p = EnableFails \<and> (XRecordCreateContext p = 0 \<or> \<not> pthread_create p))"
    using assms(2) by (simp add: setup_fails_def)
  have r2: "r2 = Some RETURN_FAILURE"
    using early open_and_enable_before_context(1) [of p h s1]
      open_and_enable_enable_fails(1) [of p h s1] oe by auto
  have m2: "\<not> hook_running_mutex s2" "capture_threads s2 = 0"
    using early s1 oe open_and_enable_before_context(3,4) [of p h s1]
      open_and_enable_enable_fails(3,4) [of p h s1] by auto
  have c2: "context_x s2 = 0 \<or> \<not> pthread_create p"
    using early s1 oe open_and_enable_before_context(5) [of p h s1]
      open_and_enable_enable_fails(5) [of p h s1] by auto
  define s2' where "s2' = call Caller Call_LoadInputHelper s2"
  obtain r3 s3 where sw: "spawn_and_wait h p RETURN_FAILURE s2' = (r3, s3)"
    by (cases "spawn_and_wait h p RETURN_FAILURE s2'")
  have c2': "context_x s2' = 0 \<or> \<not> pthread_create p"
    using c2 by (simp add: s2'_def call_frame)
  have r3: "r3 = Some RETURN_FAILURE"
    using spawn_and_wait_no_thread(1) [OF c2', of h RETURN_FAILURE] sw by simp
  have m3: "\<not> hook_running_mutex s3" "capture_threads s3 = 0"
    using spawn_and_wait_no_thread(3,4) [OF c2', of h RETURN_FAILURE] sw m2
    by (simp_all add: s2'_def call_frame)
  have "start_native_thread h p s = (Some RETURN_FAILURE, s3\<lparr>hook_control_mutex := False\<rparr>)"
    using assms(1) oe sw
    by (simp add: start_native_thread_def is_hook_thread_running_def idle_def Let_def
          s1_def [symmetric] s2'_def [symmetric] r2 r3)
  then show ?thesis
    using m3 by (simp add: is_hook_thread_running_def)
qed

theorem failed_setup_witness:
  "idle idle_hook \<and> setup_fails no_extension \<and> setup_fails no_display \<and> setup_fails no_thread
   \<and> fst (start_native_thread sample_env no_extension idle_hook) = Some RETURN_FAILURE
   \<and> fst (start_native_thread sample_env no_display idle_hook) = Some RETURN_FAILURE
   \<and> fst (start_native_thread sample_env no_thread idle_hook) = Some RETURN_FAILURE
   \<and> \<not> is_hook_thread_running (snd (start_native_thread sample_env no_extension idle_hook))
   \<and> capture_threads (snd (start_native_thread sample_env no_extension idle_hook)) = 0
   \<and> \<not> hook_control_mutex (snd (start_native_thread sample_env no_extension idle_hook))"
proof -
  have a: "idle idle_hook" by (simp add: idle_def idle_hook_def)
  have b: "setup_fails no_extension" "setup_fails no_display" "setup_fails no_thread"
    by (simp_all add: setup_fails_def no_extension_def no_display_def no_thread_def
          good_platform_def)
  show ?thesis
    using a b failed_setup [OF a b(1), of sample_env] failed_setup [OF a b(2), of sample_env]
      failed_setup [OF a b(3), of sample_env]
    by simp
qed

text \<open>
  C5 as stated fails: with the extension missing, \<^verbatim>\<open>start_native_thread\<close> returns while
  both server connections, none of which was open before the call, are still open and
  \<^verbatim>\<open>disp_ctrl\<close> still points to the first; and its result is the same \<^verbatim>\<open>RETURN_FAILURE\<close>
  as when no connection can be opened, not an error of its own.
\<close>

theorem no_extension_leaks:
  "fst (start_native_thread sample_env no_extension idle_hook) = Some RETURN_FAILURE
   \<and> connections idle_hook = []
   \<and> connections (snd (start_native_thread sample_env no_extension idle_hook)) = [1, 2]
   \<and> disp_ctrl (snd (start_native_thread sample_env no_extension idle_hook)) = Some 1
   \<and> fst (start_native_thread sample_env no_display idle_hook) = Some RETURN_FAILURE"
  by (simp add: start_defs sample_defs Let_def)

text \<open>
  C6 (as amended): \<^verbatim>\<open>start_native_thread\<close> called while the capture thread holds the
  running mutex makes no platform call, opens no connection and no context, creates no
  thread and leaves the whole state as it was, with its one capture thread; it returns
  \<^verbatim>\<open>RETURN_FAILURE\<close>.
\<close>

theorem start_while_running:
  assumes "\<not> hook_control_mutex s" and "hook_running_mutex s"
  shows "start_native_thread h p s = (Some RETURN_FAILURE, s)"
  using assms by (simp add: start_native_thread_def is_hook_thread_running_def)

theorem start_while_running_witness:
  "\<not> hook_control_mutex running_hook \<and> hook_running_mutex running_hook
   \<and> start_native_thread sample_env good_platform running_hook
       = (Some RETURN_FAILURE, running_hook)
   \<and> capture_threads (snd (start_native_thread sample_env good_platform running_hook)) = 1"
proof -
  have a: "\<not> hook_control_mutex running_hook" and b: "hook_running_mutex running_hook"
    by (simp_all add: running_hook_def)
  show ?thesis
    using a b start_while_running [OF a b, of sample_env good_platform]
    by (simp add: running_hook_def)
qed

text \<open>
  C6 as stated fails: the call made while running does not report something other than an
  error. Its result is \<^verbatim>\<open>RETURN_FAILURE\<close>, the very result of a start that fails because
  the extension is missing.
\<close>

theorem already_running_is_failure:
  "fst (start_native_thread sample_env good_platform running_hook) = Some RETURN_FAILURE
   \<and> fst (start_native_thread sample_env no_extension idle_hook) = Some RETURN_FAILURE"
  by (simp add: start_defs sample_defs Let_def)

subsection \<open>The scroll wheel\<close>

text \<open>
  C7: a press of a wheel notch dispatches one wheel event with the scroll type
  \<^verbatim>\<open>WHEEL_UNIT_SCROLL\<close>, the scroll amount 3 and the rotation -1 for \<^verbatim>\<open>WheelUp\<close>, 1 for
  \<^verbatim>\<open>WheelDown\<close>.
\<close>

theorem wheel_rotation:
  assumes "type_x d = ButtonPress"
  shows "(detail d = WheelUp \<longrightarrow>
           fst (event_switch h d t g) =
             [NativeMouseWheelEvent NATIVE_MOUSE_WHEEL t (NativeToJEventMask h (ucast (state d)))
                (scast (rootX d)) (scast (rootY d))
                (ucast (click_count (snd (event_switch h d t g))))
                (WHEEL_UNIT_SCROLL h) 3 (- 1)])
    \<and> (detail d = WheelDown \<longrightarrow>
           fst (event_switch h d t g) =
             [NativeMouseWheelEvent NATIVE_MOUSE_WHEEL t (NativeToJEventMask h (ucast (state d)))
                (scast (rootX d)) (scast (rootY d))
                (ucast (click_count (snd (event_switch h d t g))))
                (WHEEL_UNIT_SCROLL h) 3 1])"
  using assms
  by (simp add: switch_ButtonPress case_ButtonPress_def Let_def ordinary_button_def
        WheelUp_def WheelDown_def)

theorem wheel_rotation_witness:
  "fst (event_switch sample_env (xevent ButtonPress WheelUp 0) 1100 one_click) =
     [NativeMouseWheelEvent NATIVE_MOUSE_WHEEL 1100 0 0 0 2 0 3 (- 1)]
   \<and> fst (event_switch sample_env (xevent ButtonPress WheelDown 0) 1100 one_click) =
     [NativeMouseWheelEvent NATIVE_MOUSE_WHEEL 1100 0 0 0 2 0 3 1]"
proof -
  have a: "type_x (xevent ButtonPress WheelUp 0) = ButtonPress"
    and b: "type_x (xevent ButtonPress WheelDown 0) = ButtonPress"
    by (simp_all add: xevent_def)
  have c: "click_count (snd (event_switch sample_env (xevent ButtonPress WheelUp 0) 1100 one_click)) = 2"
    "click_count (snd (event_switch sample_env (xevent ButtonPress WheelDown 0) 1100 one_click)) = 2"
    by (simp_all add: switch_ButtonPress [OF a] switch_ButtonPress [OF b] press_click_count
          within_multi_click_def one_click_def sample_env_def)
  show ?thesis
    using wheel_rotation [OF a, of sample_env 1100 one_click]
      wheel_rotation [OF b, of sample_env 1100 one_click]
    by (simp add: c) (simp add: xevent_def sample_env_def)
qed

text \<open>
  C8: an event of native button 4 or 5 never dispatches a pressed, released or clicked
  event: its press dispatches a wheel event and nothing else, its release dispatches
  nothing.
\<close>

theorem wheel_never_ordinary:
  assumes "detail d = 4 \<or> detail d = 5"
  shows "(type_x d = ButtonPress \<longrightarrow>
            map event_id_of (fst (event_switch h d t g)) = [NATIVE_MOUSE_WHEEL])
    \<and> (type_x d = ButtonRelease \<longrightarrow> fst (event_switch h d t g) = [])
    \<and> (\<forall>e \<in> set (fst (event_switch h d t g)).
          event_id_of e \<noteq> NATIVE_MOUSE_PRESSED \<and> event_id_of e \<noteq> NATIVE_MOUSE_RELEASED
          \<and> event_id_of e \<noteq> NATIVE_MOUSE_CLICKED)"
  using assms
  by (auto simp add: event_switch_def event_codes case_KeyPress_def case_KeyRelease_def
        case_ButtonPress_def case_ButtonRelease_def case_MotionNotify_def Let_def
        ordinary_button_def WheelUp_def WheelDown_def)

theorem wheel_never_ordinary_witness:
  "map event_id_of (fst (event_switch sample_env (xevent ButtonPress 4 0) 1100 one_click))
     = [NATIVE_MOUSE_WHEEL]
   \<and> fst (event_switch sample_env (xevent ButtonRelease 5 0) 1100 one_click) = []"
  using wheel_never_ordinary [of "xevent ButtonPress 4 0" sample_env 1100 one_click]
    wheel_never_ordinary [of "xevent ButtonRelease 5 0" sample_env 1100 one_click]
  by (simp add: xevent_def event_codes)

text \<open>
  C9: a press of a wheel notch goes through the click counting before the button code is
  looked at: the count is incremented within the multi-click time and set to 1 after it,
  the last click time becomes the time of the press, the globals are those that any other
  button press at that time leaves, and the wheel event dispatched carries the new count.
\<close>

theorem wheel_press_counts_clicks:
  assumes "type_x d = ButtonPress" and "detail d = WheelUp \<or> detail d = WheelDown"
  shows "click_count (snd (event_switch h d t g)) =
           (if within_multi_click h t g then click_count g + 1 else 1)
    \<and> click_time (snd (event_switch h d t g)) = t
    \<and> (\<forall>d'. type_x d' = ButtonPress \<longrightarrow> snd (event_switch h d' t g) = snd (event_switch h d t g))
    \<and> map clicks_of (fst (event_switch h d t g)) = [ucast (click_count (snd (event_switch h d t g)))]
    \<and> map event_id_of (fst (event_switch h d t g)) = [NATIVE_MOUSE_WHEEL]"
  using assms
  by (auto simp add: switch_ButtonPress case_ButtonPress_def Let_def ordinary_button_def
        WheelUp_def WheelDown_def)

theorem wheel_press_counts_clicks_witness:
  "within_multi_click sample_env 1100 one_click
   \<and> click_count (snd (event_switch sample_env (xevent ButtonPress WheelDown 0) 1100 one_click)) = 2
   \<and> click_time (snd (event_switch sample_env (xevent ButtonPress WheelDown 0) 1100 one_click)) = 1100
   \<and> snd (event_switch sample_env (xevent ButtonPress 1 0) 1100 one_click)
       = snd (event_switch sample_env (xevent ButtonPress WheelDown 0) 1100 one_click)
   \<and> map clicks_of (fst (event_switch sample_env (xevent ButtonPress WheelDown 0) 1100 one_click))
       = [2]"
proof -
  have a: "type_x (xevent ButtonPress WheelDown 0) = ButtonPress"
    and b: "detail (xevent ButtonPress WheelDown 0) = WheelUp
            \<or> detail (xevent ButtonPress WheelDown 0) = WheelDown"
    and c: "type_x (xevent ButtonPress 1 0) = ButtonPress"
    and w: "within_multi_click sample_env 1100 one_click"
    by (simp_all add: xevent_def within_multi_click_def one_click_def sample_env_def)
  show ?thesis
    using wheel_press_counts_clicks [OF a b, of sample_env 1100 one_click] c w
    by (simp add: one_click_def)
qed

text \<open>
  C10: only a motion event writes the dragging flag. An event of any other type leaves it
  as it is, in the switch and in the whole callback; so does a stream without motion
  events; after a stream with a motion event the flag is the classification of the latest
  one, whatever came before or after it; and the release of an ordinary button reads the
  flag: the clicked event is among its events exactly when the flag is clear.
\<close>

theorem dragging_flag_only_motion:
  "(type_x d \<noteq> MotionNotify \<longrightarrow>
      mouse_dragged (snd (event_switch h d t g)) = mouse_dragged g)
   \<and> (type_x (data hook) \<noteq> MotionNotify \<longrightarrow> callback_proc h jni_ok t hook s = Some (evs, s') \<longrightarrow>
      mouse_dragged (mouse s') = mouse_dragged (mouse s))
   \<and> ((\<forall>(d, t) \<in> set es. type_x d \<noteq> MotionNotify) \<longrightarrow>
      mouse_dragged (snd (run_events h es g)) = mouse_dragged g)
   \<and> (type_x m = MotionNotify \<longrightarrow> (\<forall>(d, t) \<in> set post. type_x d \<noteq> MotionNotify) \<longrightarrow>
      mouse_dragged (snd (run_events h (pre @ (m, tm) # post) g)) =
        upper_half_set (motion_modifiers h m))
   \<and> (type_x r = ButtonRelease \<longrightarrow> ordinary_button (detail r) \<longrightarrow>
      (NATIVE_MOUSE_CLICKED \<in> set (map event_id_of (fst (event_switch h r tr g))))
        = (\<not> mouse_dragged g))"
proof -
  have c: "type_x (data hook) \<noteq> MotionNotify \<longrightarrow> callback_proc h jni_ok t hook s = Some (evs, s') \<longrightarrow>
      mouse_dragged (mouse s') = mouse_dragged (mouse s)"
    using callback_proc_mouse [of h jni_ok t hook s evs s']
      other_events_keep_flag [of "data hook" h t "mouse s"] by auto
  show ?thesis
    using c other_events_keep_flag [of d h t g] run_events_keep_flag [of es h g]
      flag_after_last_motion [of m post h pre tm g] release_ids [of r h tr g]
    by auto
qed

theorem dragging_flag_only_motion_witness:
  "mouse_dragged (snd (event_switch sample_env (xevent ButtonPress 1 0) 1100 one_click))
     = mouse_dragged one_click
   \<and> mouse_dragged (snd (run_events sample_env
        [(xevent ButtonPress 1 0, 1000), (xevent ButtonRelease 1 0x100, 1100)] one_click))
     = mouse_dragged one_click
   \<and> mouse_dragged (snd (run_events sample_env drag_then_click initial_globals))
   \<and> NATIVE_MOUSE_CLICKED
       \<in> set (map event_id_of (fst (event_switch sample_env (xevent ButtonRelease 1 0x100) 1100 one_click)))"
proof -
  have e: "drag_then_click = [(xevent ButtonPress 1 0, 1000)] @ (xevent MotionNotify 0 0x100, 1050)
      # [(xevent ButtonRelease 1 0x100, 1100), (xevent ButtonPress 1 0, 5000)]"
    by (simp add: drag_then_click_def)
  have u: "upper_half_set (motion_modifiers sample_env (xevent MotionNotify 0 0x100))"
    by (simp add: upper_half_set_def motion_modifiers_def sample_env_def xevent_def)
  have o: "ordinary_button (detail (xevent ButtonRelease 1 0x100))"
    "\<not> mouse_dragged one_click"
    by (simp_all add: ordinary_button_def xevent_def one_click_def)
  show ?thesis
    unfolding e
    using dragging_flag_only_motion [of "xevent ButtonPress 1 0" sample_env 1100 one_click
        "\<lparr>category = XRecordEndOfData, data = xevent 0 0 0\<rparr>" True idle_hook "[]" idle_hook
        "[(xevent ButtonPress 1 0, 1000), (xevent ButtonRelease 1 0x100, 1100)]"
        "xevent MotionNotify 0 0x100"
        "[(xevent ButtonRelease 1 0x100, 1100), (xevent ButtonPress 1 0, 5000)]"
        "[(xevent ButtonPress 1 0, 1000)]" 1050 "xevent ButtonRelease 1 0x100" 1100]
      dragging_flag_only_motion [where m = "xevent MotionNotify 0 0x100" and h = sample_env
        and post = "[(xevent ButtonRelease 1 0x100, 1100), (xevent ButtonPress 1 0, 5000)]"
        and pre = "[(xevent ButtonPress 1 0, 1000)]" and tm = 1050 and g = initial_globals]
      u o
    by (simp add: xevent_def event_codes del: run_events.simps)
qed

end
